theory Spec2Isabelle
  imports Complex_Main
begin

section \<open>PolyStrips: strip detection and handle dragging\<close>

text \<open>
  A shallow embedding of \<^verbatim>\<open>rftool_polystrips/polystrips.py\<close> (class \<^verbatim>\<open>PolyStrips\<close>):
  the target-change handler \<^verbatim>\<open>update_target\<close>, the \<^verbatim>\<open>main\<close> state's hover
  computation, and the \<^verbatim>\<open>move handle\<close> state (\<^verbatim>\<open>movehandle_enter\<close>,
  \<^verbatim>\<open>modal_handle\<close>).

  Mesh elements (faces, edges, vertices) are objects of the host mesh; they are used only
  for identity, so they are numbered.  A curve control point is a mutable \<^verbatim>\<open>Point\<close>
  object shared between a strip's curve and the edit set; it is a reference into an explicit
  store of coordinates.  Coordinates are floating-point vectors in the add-on; the 3D point
  type \<open>'p\<close> and the screen point type \<open>'q\<close> are kept abstract, and lengths are real numbers.
\<close>

subsection \<open>Data\<close>

type_synonym bmface = nat
type_synonym bmedge = nat
type_synonym bmvert = nat
type_synonym cbref = nat

datatype error = ValueError | IndexError | TypeError | ZeroDivisionError

text \<open>
  \<^verbatim>\<open>RFTool_PolyStrips_Strip(strip)\<close>: the face chain and the four control points of its
  cubic bezier curve (\<^verbatim>\<open>strip.curve.points()\<close> is always unpacked into four).
\<close>

datatype strip = Strip (bmf_strip: "bmface list") (curve: "cbref \<times> cbref \<times> cbref \<times> cbref")

text \<open>
  Calls to external collaborators that leave no value in the tool's own fields are
  recorded, in order, in a trace.
\<close>

datatype 'q event =
    Raycast 'q
  | CaptureEdges strip
  | Update strip
  | UndoPush string
  | UndoCancel
  | StripViz

text \<open>
  Everything the tool consumes from outside this file: the host context
  (\<^verbatim>\<open>self.rfcontext\<close>), the helpers imported from \<^verbatim>\<open>polystrips_utils\<close>, the
  options, and the vector classes.  They are parameters of the model.

  \<^item> \<open>crawl_strip\<close> returns \<open>None\<close> for Python's \<^verbatim>\<open>None\<close>, and a face list otherwise.
  \<^item> \<open>pop_order\<close> and \<open>iter_order\<close> are the orders in which Python pops the
    \<^verbatim>\<open>boundaries\<close> set and iterates the \<^verbatim>\<open>junctions\<close> set; no property proved below
    depends on them.
  \<^item> \<open>fit_curve\<close> is the curve fit done by the \<^verbatim>\<open>RFTool_PolyStrips_Strip\<close> constructor;
    \<open>curve_eval c i\<close> is \<^verbatim>\<open>curve.eval(i/10)\<close>.
  \<^item> \<open>Point_eq\<close> is \<^verbatim>\<open>==\<close> on \<^verbatim>\<open>Point\<close> coordinates, which Python's \<^verbatim>\<open>in\<close> uses
    after the identity test.
  \<^item> \<open>vec_length (vec_sub a b)\<close> is \<^verbatim>\<open>(a - b).length\<close>; \<open>select_dist\<close> is
    \<^verbatim>\<open>self.drawing.scale(options['select dist'])\<close>.
  \<^item> \<open>view_dot o n\<close> is \<^verbatim>\<open>Point2D_to_Vec(o).dot(Point2D_to_Ray(n).d)\<close> and
    \<open>ray_eval n t\<close> is \<^verbatim>\<open>Point2D_to_Ray(n).eval(t)\<close>.
\<close>

record ('p, 'q, 'h) env =
  get_selected_faces :: "bmface list"
  verts :: "bmface \<Rightarrow> bmvert list"
  edges :: "bmface \<Rightarrow> bmedge list"
  neighbor_edges :: "bmface \<Rightarrow> bmedge \<Rightarrow> bmedge list"
  is_boundaryvert :: "bmvert \<Rightarrow> bmface set \<Rightarrow> bool"
  is_boundaryedge :: "bmedge \<Rightarrow> bmface set \<Rightarrow> bool"
  crawl_strip :: "bmface \<Rightarrow> bmedge \<Rightarrow> bmface set \<Rightarrow> bmface set \<Rightarrow> bmface list option"
  hash_face_pair :: "bmface \<Rightarrow> bmface \<Rightarrow> 'h"
  max_strips :: int
  pop_order :: "(bmedge \<times> bmface) list \<Rightarrow> (bmedge \<times> bmface) list"
  iter_order :: "bmface list \<Rightarrow> bmface list"
  fit_curve :: "bmface list \<Rightarrow> 'p \<times> 'p \<times> 'p \<times> 'p"
  curve_eval :: "'p \<times> 'p \<times> 'p \<times> 'p \<Rightarrow> nat \<Rightarrow> 'p"
  Point_to_Point2D :: "'p \<Rightarrow> 'q option"
  raycast_sources_Point2D :: "'q \<Rightarrow> 'p option"
  Point_eq :: "'p \<Rightarrow> 'p \<Rightarrow> bool"
  vec_add :: "'q \<Rightarrow> 'q \<Rightarrow> 'q"
  vec_sub :: "'q \<Rightarrow> 'q \<Rightarrow> 'q"
  vec_length :: "'q \<Rightarrow> real"
  select_dist :: real
  view_dot :: "'q \<Rightarrow> 'q \<Rightarrow> real"
  Point_to_depth :: "'p \<Rightarrow> real"
  ray_eval :: "'q \<Rightarrow> real \<Rightarrow> 'p"

text \<open>\<^verbatim>\<open>self.rfcontext.actions\<close> as the tool reads it in one tick.\<close>

record 'q actions =
  mouse :: 'q
  ctrl :: bool
  shift :: bool
  pressed :: "string \<Rightarrow> bool"
  released :: "string \<Rightarrow> bool"
  selection_painting :: "string option"

text \<open>
  The tool's fields.  Python sets (\<^verbatim>\<open>hovering_strips\<close>, \<^verbatim>\<open>mod_strips\<close>) are lists
  without duplicates.  \<open>xyz\<close> is the store of control point coordinates and \<open>next_ref\<close>
  the next unused reference; \<open>trace\<close> is the trace of external calls.
\<close>

record ('p, 'q) state =
  fsm_state :: string
  strips :: "strip list"
  strip_pts :: "'p list list"
  hovering_strips :: "strip list"
  hovering_handles :: "cbref list"
  sel_cbpts :: "(cbref \<times> bool \<times> 'p \<times> 'q option) list"
  mod_strips :: "strip list"
  mousedown :: 'q
  mouselast :: 'q
  rfwidget :: string
  cursor :: string
  move_done_pressed :: string
  move_done_released :: string
  move_cancelled :: string
  xyz :: "cbref \<Rightarrow> 'p"
  next_ref :: cbref
  trace :: "'q event list"

subsection \<open>update_target: strip detection\<close>

text \<open>\<^verbatim>\<open>s.add(x)\<close> on a Python set.\<close>

definition set_add :: "'a \<Rightarrow> 'a list \<Rightarrow> 'a list" where
  "set_add x xs = (if x \<in> set xs then xs else xs @ [x])"

text \<open>
  The body of the first loop for one face: \<open>Inr True\<close> when the face reaches
  \<^verbatim>\<open>junctions.add(bmf)\<close>, \<open>Inr False\<close> when one of the three \<^verbatim>\<open>continue\<close>s is
  taken.  Unpacking the edge flags into four names raises \<^verbatim>\<open>ValueError\<close> for any other
  number of edges.
\<close>

definition first_pass_junction ::
  "('p, 'q, 'h) env \<Rightarrow> bmface set \<Rightarrow> bmface \<Rightarrow> error + bool" where
  "first_pass_junction env bmquads bmf =
     (if \<not> (\<exists>bmv \<in> set (verts env bmf). is_boundaryvert env bmv bmquads) then Inr False
      else case map (\<lambda>bme. is_boundaryedge env bme bmquads) (edges env bmf) of
             [edge0, edge1, edge2, edge3] \<Rightarrow>
               if (edge0 \<or> edge2) \<and> \<not> (edge1 \<or> edge3) then Inr False
               else if (edge1 \<or> edge3) \<and> \<not> (edge0 \<or> edge2) then Inr False
               else Inr True
           | _ \<Rightarrow> Inl ValueError)"

fun find_junctions ::
  "('p, 'q, 'h) env \<Rightarrow> bmface set \<Rightarrow> bmface list \<Rightarrow> bmface list \<Rightarrow> error + bmface list" where
  "find_junctions env bmquads [] junctions = Inr junctions"
| "find_junctions env bmquads (bmf # rest) junctions =
     (case first_pass_junction env bmquads bmf of
        Inl e \<Rightarrow> Inl e
      | Inr b \<Rightarrow> find_junctions env bmquads rest (if b then set_add bmf junctions else junctions))"

text \<open>
  The second loop.  \<^verbatim>\<open>strip[-1]\<close> raises \<^verbatim>\<open>IndexError\<close> on an empty list; each crawl
  sees the junctions added so far.
\<close>

fun crawl_neighbors ::
  "('p, 'q, 'h) env \<Rightarrow> bmface set \<Rightarrow> bmface \<Rightarrow> bmedge list \<Rightarrow> bmface list \<Rightarrow> error + bmface list" where
  "crawl_neighbors env bmquads bmf [] junctions = Inr junctions"
| "crawl_neighbors env bmquads bmf (bme' # rest) junctions =
     (case crawl_strip env bmf bme' bmquads (set junctions) of
        None \<Rightarrow> crawl_neighbors env bmquads bmf rest junctions
      | Some strip \<Rightarrow>
          if strip = [] then Inl IndexError
          else crawl_neighbors env bmquads bmf rest (set_add (last strip) junctions))"

fun crawl_boundaries ::
  "('p, 'q, 'h) env \<Rightarrow> bmface set \<Rightarrow> (bmedge \<times> bmface) list \<Rightarrow> bmface list \<Rightarrow> error + bmface list" where
  "crawl_boundaries env bmquads [] junctions = Inr junctions"
| "crawl_boundaries env bmquads ((bme, bmf) # rest) junctions =
     (case crawl_neighbors env bmquads bmf (neighbor_edges env bmf bme) junctions of
        Inl e \<Rightarrow> Inl e
      | Inr junctions' \<Rightarrow> crawl_boundaries env bmquads rest junctions')"

text \<open>
  \<^verbatim>\<open>self.strips.append(RFTool_PolyStrips_Strip(strip))\<close>: four fresh control points
  holding the fitted curve.
\<close>

definition append_strip :: "('p, 'q, 'h) env \<Rightarrow> bmface list \<Rightarrow> ('p, 'q) state \<Rightarrow> ('p, 'q) state" where
  "append_strip env bmfs s =
     (let n = next_ref s in
      case fit_curve env bmfs of (c0, c1, c2, c3) \<Rightarrow>
        s\<lparr> strips := strips s @ [Strip bmfs (n, n + 1, n + 2, n + 3)],
           xyz := (xyz s)(n := c0, n + 1 := c1, n + 2 := c2, n + 3 := c3),
           next_ref := n + 4 \<rparr>)"

text \<open>
  The closure \<^verbatim>\<open>add_strip(bme)\<close> of the third loop; \<^verbatim>\<open>not strip\<close> holds for
  \<^verbatim>\<open>None\<close> and for the empty list.
\<close>

definition add_strip ::
  "('p, 'q, 'h) env \<Rightarrow> bmface set \<Rightarrow> bmface set \<Rightarrow> bmface \<Rightarrow> bmedge \<Rightarrow>
   'h set \<times> ('p, 'q) state \<Rightarrow> 'h set \<times> ('p, 'q) state" where
  "add_strip env bmquads junctions bmf0 bme ts =
     (case ts of (touched, s) \<Rightarrow>
       (case crawl_strip env bmf0 bme bmquads junctions of
          None \<Rightarrow> (touched, s)
        | Some strip \<Rightarrow>
            if strip = [] then (touched, s)
            else let bmf1 = last strip in
              if length strip > 1 \<and> hash_face_pair env bmf0 bmf1 \<notin> touched
              then (insert (hash_face_pair env bmf1 bmf0) (insert (hash_face_pair env bmf0 bmf1) touched),
                    append_strip env strip s)
              else (touched, s)))"

text \<open>The four guarded calls of \<^verbatim>\<open>add_strip\<close> for one junction face.\<close>

definition junction_strips ::
  "('p, 'q, 'h) env \<Rightarrow> bmface set \<Rightarrow> bmface set \<Rightarrow> bmface \<Rightarrow>
   'h set \<times> ('p, 'q) state \<Rightarrow> error + 'h set \<times> ('p, 'q) state" where
  "junction_strips env bmquads junctions bmf0 ts =
     (case edges env bmf0 of
        [bme0, bme1, bme2, bme3] \<Rightarrow>
          let edge0 = is_boundaryedge env bme0 bmquads;
              edge1 = is_boundaryedge env bme1 bmquads;
              edge2 = is_boundaryedge env bme2 bmquads;
              edge3 = is_boundaryedge env bme3 bmquads;
              ts0 = (if \<not> edge0 then add_strip env bmquads junctions bmf0 bme0 ts else ts);
              ts1 = (if \<not> edge1 then add_strip env bmquads junctions bmf0 bme1 ts0 else ts0);
              ts2 = (if \<not> edge2 then add_strip env bmquads junctions bmf0 bme2 ts1 else ts1);
              ts3 = (if \<not> edge3 then add_strip env bmquads junctions bmf0 bme3 ts2 else ts2)
          in Inr ts3
      | _ \<Rightarrow> Inl ValueError)"

text \<open>
  The third loop with its cap check and \<^verbatim>\<open>break\<close>.  A Python integer is true when it is
  not zero.
\<close>

fun find_strips ::
  "('p, 'q, 'h) env \<Rightarrow> bmface set \<Rightarrow> bmface set \<Rightarrow> bmface list \<Rightarrow>
   'h set \<times> ('p, 'q) state \<Rightarrow> error + ('p, 'q) state" where
  "find_strips env bmquads junctions [] ts = Inr (snd ts)"
| "find_strips env bmquads junctions (bmf0 # rest) ts =
     (case junction_strips env bmquads junctions bmf0 ts of
        Inl e \<Rightarrow> Inl e
      | Inr (touched, s) \<Rightarrow>
          if max_strips env \<noteq> 0 \<and> int (length (strips s)) > max_strips env
          then Inr (s\<lparr>strips := []\<rparr>)
          else find_strips env bmquads junctions rest (touched, s))"

definition update_strip_viz :: "('p, 'q, 'h) env \<Rightarrow> ('p, 'q) state \<Rightarrow> ('p, 'q) state" where
  "update_strip_viz env s =
     s\<lparr> strip_pts :=
          map (\<lambda>st. case curve st of (p0, p1, p2, p3) \<Rightarrow>
                 map (curve_eval env (xyz s p0, xyz s p1, xyz s p2, xyz s p3)) [0 ..< 10 + 1])
              (strips s),
        trace := trace s @ [StripViz] \<rparr>"

definition selected_quads :: "('p, 'q, 'h) env \<Rightarrow> bmface list" where
  "selected_quads env =
     remdups (filter (\<lambda>bmf. length (verts env bmf) = 4) (get_selected_faces env))"

definition boundaries :: "('p, 'q, 'h) env \<Rightarrow> bmface list \<Rightarrow> (bmedge \<times> bmface) list" where
  "boundaries env bmquads =
     remdups (concat (map (\<lambda>bmf. map (\<lambda>bme. (bme, bmf))
                (filter (\<lambda>bme. is_boundaryedge env bme (set bmquads)) (edges env bmf))) bmquads))"

definition update_target :: "('p, 'q, 'h) env \<Rightarrow> ('p, 'q) state \<Rightarrow> error + ('p, 'q) state" where
  "update_target env s =
     (if fsm_state s \<in> {''move handle''} then Inr s
      else
        let s1 = s\<lparr>strips := []\<rparr>;
            bmquads = selected_quads env
        in if bmquads = [] then Inr s1
           else
             case find_junctions env (set bmquads) bmquads [] of
               Inl e \<Rightarrow> Inl e
             | Inr corners \<Rightarrow>
                 (case crawl_boundaries env (set bmquads) (pop_order env (boundaries env bmquads)) corners of
                    Inl e \<Rightarrow> Inl e
                  | Inr junctions \<Rightarrow>
                      (case find_strips env (set bmquads) (set junctions) (iter_order env junctions) ({}, s1) of
                         Inl e \<Rightarrow> Inl e
                       | Inr s2 \<Rightarrow> Inr (update_strip_viz env s2))))"

subsection \<open>The main state: hovering\<close>

text \<open>
  Python's \<^verbatim>\<open>p in ps\<close> on a list of \<^verbatim>\<open>Point\<close> objects: some element is the same
  object, or compares equal to it.
\<close>

definition pt_in :: "('p, 'q, 'h) env \<Rightarrow> (cbref \<Rightarrow> 'p) \<Rightarrow> cbref \<Rightarrow> cbref list \<Rightarrow> bool" where
  "pt_in env co p ps = list_ex (\<lambda>q. q = p \<or> Point_eq env (co q) (co p)) ps"

text \<open>The body of the inner hover loop for one control point of one strip.\<close>

definition hover_point ::
  "('p, 'q, 'h) env \<Rightarrow> 'q actions \<Rightarrow> strip \<Rightarrow> cbref \<Rightarrow> ('p, 'q) state \<Rightarrow> ('p, 'q) state" where
  "hover_point env acts st cbpt s =
     (case Point_to_Point2D env (xyz s cbpt) of
        None \<Rightarrow> s
      | Some v \<Rightarrow>
          if vec_length env (vec_sub env (mouse acts) v) > select_dist env then s
          else s\<lparr> hovering_handles := hovering_handles s @ [cbpt],
                  hovering_strips := set_add st (hovering_strips s) \<rparr>)"

definition curve_list :: "strip \<Rightarrow> cbref list" where
  "curve_list st = (case curve st of (p0, p1, p2, p3) \<Rightarrow> [p0, p1, p2, p3])"

definition hover_strip ::
  "('p, 'q, 'h) env \<Rightarrow> 'q actions \<Rightarrow> strip \<Rightarrow> ('p, 'q) state \<Rightarrow> ('p, 'q) state" where
  "hover_strip env acts st s = fold (hover_point env acts st) (curve_list st) s"

text \<open>
  \<^verbatim>\<open>main\<close> returns the name of the next state, or nothing.  The result of the host's
  selection painting is the field \<open>selection_painting\<close> of the actions.
\<close>

definition main ::
  "('p, 'q, 'h) env \<Rightarrow> 'q actions \<Rightarrow> ('p, 'q) state \<Rightarrow> string option \<times> ('p, 'q) state" where
  "main env acts s =
     (let s1 = fold (hover_strip env acts) (strips s)
                 (s\<lparr>hovering_handles := [], hovering_strips := []\<rparr>);
          s2 = (if ctrl acts \<and> \<not> shift acts
                then s1\<lparr>rfwidget := ''brushstroke'', cursor := ''CROSSHAIR''\<rparr>
                else if hovering_handles s1 \<noteq> []
                then s1\<lparr>rfwidget := ''move'', cursor := ''HAND''\<rparr>
                else s1\<lparr>rfwidget := ''brushstroke'', cursor := ''CROSSHAIR''\<rparr>)
      in if hovering_handles s2 \<noteq> [] \<and> pressed acts ''action'' then (Some ''move handle'', s2)
         else if hovering_handles s2 \<noteq> [] \<and> pressed acts ''action alt0'' then (Some ''rotate'', s2)
         else if hovering_handles s2 \<noteq> [] \<and> pressed acts ''action alt1'' then (Some ''scale'', s2)
         else if pressed acts ''select'' \<or> pressed acts ''select add''
         then (selection_painting acts, s2)
         else (None, s2))"

subsection \<open>The move handle state\<close>

definition movehandle_canenter :: "('p, 'q) state \<Rightarrow> bool" where
  "movehandle_canenter s = (length (hovering_handles s) > 0)"

text \<open>The body of the loop over \<^verbatim>\<open>self.strips\<close> in \<^verbatim>\<open>movehandle_enter\<close>.\<close>

definition pull_inner ::
  "('p, 'q, 'h) env \<Rightarrow> (cbref \<Rightarrow> 'p) \<Rightarrow> strip \<Rightarrow> cbref list \<times> strip list \<Rightarrow> cbref list \<times> strip list" where
  "pull_inner env co st cm =
     (case curve st of (p0, p1, p2, p3) \<Rightarrow>
      let cm1 = (if pt_in env co p0 (fst cm) \<and> \<not> pt_in env co p1 (fst cm)
                 then (fst cm @ [p1], set_add st (snd cm)) else cm)
      in if pt_in env co p3 (fst cm1) \<and> \<not> pt_in env co p2 (fst cm1)
         then (fst cm1 @ [p2], set_add st (snd cm1)) else cm1)"

definition movehandle_enter ::
  "('p, 'q, 'h) env \<Rightarrow> 'q actions \<Rightarrow> ('p, 'q) state \<Rightarrow> ('p, 'q) state" where
  "movehandle_enter env acts s =
     (let co = xyz s;
          cm = fold (pull_inner env co) (strips s) (hovering_handles s, hovering_strips s);
          inners = concat (map (\<lambda>st. case curve st of (p0, p1, p2, p3) \<Rightarrow> [p1, p2]) (strips s))
      in s\<lparr> sel_cbpts :=
               map (\<lambda>cbpt. (cbpt, pt_in env co cbpt inners, co cbpt, Point_to_Point2D env (co cbpt)))
                   (fst cm),
             mod_strips := snd cm,
             mousedown := mouse acts,
             mouselast := mouse acts,
             rfwidget := ''move'',
             move_done_pressed := ''confirm'',
             move_done_released := ''action'',
             move_cancelled := ''cancel'',
             trace := trace s @ map CaptureEdges (snd cm) @ [UndoPush ''manipulate bezier''] \<rparr>)"

text \<open>
  The body of the loop over \<^verbatim>\<open>self.sel_cbpts\<close> in \<^verbatim>\<open>modal_handle\<close>.  Adding the delta
  to a missing screen position raises \<^verbatim>\<open>TypeError\<close>; dividing by a zero dot product
  raises \<^verbatim>\<open>ZeroDivisionError\<close>.  A \<^verbatim>\<open>Point\<close> is true whatever its coordinates, so
  \<^verbatim>\<open>if xyz\<close> tests for a hit.
\<close>

definition move_cbpt ::
  "('p, 'q, 'h) env \<Rightarrow> 'q \<Rightarrow> cbref \<times> bool \<times> 'p \<times> 'q option \<Rightarrow> ('p, 'q) state \<Rightarrow>
   error + ('p, 'q) state" where
  "move_cbpt env delta entry s =
     (case entry of (cbpt, inner, oco, oco2D) \<Rightarrow>
      (case oco2D of
        None \<Rightarrow> Inl TypeError
      | Some o2 \<Rightarrow>
          let nco2D = vec_add env o2 delta in
          if \<not> inner then
            (case raycast_sources_Point2D env nco2D of
               None \<Rightarrow> Inr (s\<lparr>trace := trace s @ [Raycast nco2D]\<rparr>)
             | Some hit \<Rightarrow>
                 Inr (s\<lparr>xyz := (xyz s)(cbpt := hit), trace := trace s @ [Raycast nco2D]\<rparr>))
          else
            (let d = view_dot env o2 nco2D;
                 od = Point_to_depth env oco
             in if d = 0 then Inl ZeroDivisionError
                else Inr (s\<lparr>xyz := (xyz s)(cbpt := ray_eval env nco2D (od / d))\<rparr>))))"

fun move_cbpts ::
  "('p, 'q, 'h) env \<Rightarrow> 'q \<Rightarrow> (cbref \<times> bool \<times> 'p \<times> 'q option) list \<Rightarrow> ('p, 'q) state \<Rightarrow>
   error + ('p, 'q) state" where
  "move_cbpts env delta [] s = Inr s"
| "move_cbpts env delta (entry # rest) s =
     (case move_cbpt env delta entry s of
        Inl e \<Rightarrow> Inl e
      | Inr s' \<Rightarrow> move_cbpts env delta rest s')"

definition modal_handle ::
  "('p, 'q, 'h) env \<Rightarrow> 'q actions \<Rightarrow> ('p, 'q) state \<Rightarrow> error + string option \<times> ('p, 'q) state" where
  "modal_handle env acts s =
     (if pressed acts (move_done_pressed s) then Inr (Some ''main'', s)
      else if released acts (move_done_released s) then Inr (Some ''main'', s)
      else if pressed acts (move_cancelled s)
      then Inr (Some ''main'', s\<lparr>trace := trace s @ [UndoCancel]\<rparr>)
      else if vec_length env (vec_sub env (mouse acts) (mouselast s)) = 0 then Inr (None, s)
      else
        let s1 = s\<lparr>mouselast := mouse acts\<rparr>;
            delta = vec_sub env (mouse acts) (mousedown s1)
        in case move_cbpts env delta (sel_cbpts s1) s1 of
             Inl e \<Rightarrow> Inl e
           | Inr s2 \<Rightarrow>
               Inr (None, update_strip_viz env
                            (s2\<lparr>trace := trace s2 @ map Update (hovering_strips s2)\<rparr>)))"

subsection \<open>Reach of the pointer, raycasts of a step\<close>

text \<open>
  \<open>in_reach\<close>: the control point has a screen position and its distance to the pointer
  is at most the selection distance.  \<open>outer_raycasts\<close>: one raycast at the new screen
  position for every entry of the edit set that is not inner, in the order of the edit set.
\<close>

definition in_reach :: "('p, 'q, 'h) env \<Rightarrow> 'q actions \<Rightarrow> (cbref \<Rightarrow> 'p) \<Rightarrow> cbref \<Rightarrow> bool" where
  "in_reach env acts co cbpt =
     (case Point_to_Point2D env (co cbpt) of
        None \<Rightarrow> False
      | Some v \<Rightarrow> vec_length env (vec_sub env (mouse acts) v) \<le> select_dist env)"


subsection \<open>End faces and registered pairs\<close>

text \<open>
  A strip runs from the first face of its chain to the last; \<open>end_pair\<close> is the unordered
  pair of the two.  \<open>registered\<close> relates the set \<^verbatim>\<open>touched\<close> to the strip list during the
  third loop: the strips have different end pairs, and both orders of every strip's end
  faces have their key in \<^verbatim>\<open>touched\<close>.
\<close>

definition end_pair :: "strip \<Rightarrow> bmface set" where
  "end_pair st = {hd (bmf_strip st), last (bmf_strip st)}"

definition registered :: "('p, 'q, 'h) env \<Rightarrow> 'h set \<times> ('p, 'q) state \<Rightarrow> bool" where
  "registered env ts \<longleftrightarrow>
     distinct (map end_pair (strips (snd ts))) \<and>
     (\<forall>st \<in> set (strips (snd ts)).
        hash_face_pair env (hd (bmf_strip st)) (last (bmf_strip st)) \<in> fst ts \<and>
        hash_face_pair env (last (bmf_strip st)) (hd (bmf_strip st)) \<in> fst ts)"

subsection \<open>A concrete mesh and view\<close>

text \<open>
  A mesh of two rows of three quads and one triangle \<open>f6\<close>, seen from above, on which the
  functions above are run.  Faces are numbered row by row; the edges of a quad are listed
  top, right, bottom, left.

  \<^verbatim>\<open>
     v0 --e0-- v1 --e1-- v2 --e2-- v3
     |         |         |         |
     e9   f0  e10   f1  e11   f2  e12
     |         |         |         |
     v4 --e3-- v5 --e4-- v6 --e5-- v7
     |         |         |         |
     e13  f3  e14   f4  e15   f5  e16
     |         |         |         |
     v8 --e6-- v9 --e7-- v10 -e8-- v11
  \<close>

  The triangle \<open>f6\<close> lies to the right of \<open>f2\<close>, on the edge \<open>e12\<close>, with the third vertex
  \<open>v12\<close> and the edges \<open>e17\<close> and \<open>e18\<close>.

  An edge is on the boundary of a selection when exactly one selected face has it, a vertex
  when fewer than four selected faces have it.  A crawl leaves a face through the given
  edge and goes straight on until it meets a stop face or leaves the selection.
\<close>

definition grid_faces :: "bmface list" where
  "grid_faces = [0, 1, 2, 3, 4, 5, 6]"

definition grid_verts :: "bmface \<Rightarrow> bmvert list" where
  "grid_verts f =
     (if f = 0 then [0, 1, 5, 4] else if f = 1 then [1, 2, 6, 5] else if f = 2 then [2, 3, 7, 6]
      else if f = 3 then [4, 5, 9, 8] else if f = 4 then [5, 6, 10, 9]
      else if f = 5 then [6, 7, 11, 10] else if f = 6 then [3, 12, 7] else [])"

definition grid_edges :: "bmface \<Rightarrow> bmedge list" where
  "grid_edges f =
     (if f = 0 then [0, 10, 3, 9] else if f = 1 then [1, 11, 4, 10] else if f = 2 then [2, 12, 5, 11]
      else if f = 3 then [3, 14, 6, 13] else if f = 4 then [4, 15, 7, 14]
      else if f = 5 then [5, 16, 8, 15] else if f = 6 then [17, 18, 12] else [])"

definition grid_neighbor_edges :: "bmface \<Rightarrow> bmedge \<Rightarrow> bmedge list" where
  "grid_neighbor_edges f e =
     (case grid_edges f of
        [a, b, c, d] \<Rightarrow>
          if e = a then [d, b] else if e = b then [a, c]
          else if e = c then [b, d] else if e = d then [c, a] else []
      | _ \<Rightarrow> [])"

definition grid_opposite :: "bmface \<Rightarrow> bmedge \<Rightarrow> bmedge" where
  "grid_opposite f e =
     (case grid_edges f of
        [a, b, c, d] \<Rightarrow> if e = a then c else if e = b then d else if e = c then a else b
      | _ \<Rightarrow> e)"

definition grid_is_boundaryedge :: "bmedge \<Rightarrow> bmface set \<Rightarrow> bool" where
  "grid_is_boundaryedge e only = (length (filter (\<lambda>f. f \<in> only \<and> e \<in> set (grid_edges f)) grid_faces) = 1)"

definition grid_is_boundaryvert :: "bmvert \<Rightarrow> bmface set \<Rightarrow> bool" where
  "grid_is_boundaryvert v only = (length (filter (\<lambda>f. f \<in> only \<and> v \<in> set (grid_verts f)) grid_faces) < 4)"

fun grid_crawl :: "nat \<Rightarrow> bmface \<Rightarrow> bmedge \<Rightarrow> bmface set \<Rightarrow> bmface set \<Rightarrow> bmface list option" where
  "grid_crawl 0 bmf0 bme only stop = None"
| "grid_crawl (Suc n) bmf0 bme only stop =
     (case filter (\<lambda>f. f \<in> only \<and> f \<noteq> bmf0 \<and> bme \<in> set (grid_edges f)) grid_faces of
        [bmf1] \<Rightarrow>
          if bmf1 \<in> stop then Some [bmf0, bmf1]
          else (case grid_crawl n bmf1 (grid_opposite bmf1 bme) only stop of
                  None \<Rightarrow> None
                | Some chain \<Rightarrow> Some (bmf0 # chain))
      | _ \<Rightarrow> Some [bmf0])"

type_synonym point = "real \<times> real \<times> real"
type_synonym point2D = "real \<times> real"

definition grid_center :: "bmface \<Rightarrow> point" where
  "grid_center f = (10 * real (f mod 3) + 5, 10 * real (f div 3) + 5, 0)"

definition lerp3 :: "real \<Rightarrow> point \<Rightarrow> point \<Rightarrow> point" where
  "lerp3 t a b =
     (case a of (ax, ay, az) \<Rightarrow> case b of (bx, by, bz) \<Rightarrow>
        ((1 - t) * ax + t * bx, (1 - t) * ay + t * by, (1 - t) * az + t * bz))"

definition grid_fit_curve :: "bmface list \<Rightarrow> point \<times> point \<times> point \<times> point" where
  "grid_fit_curve chain =
     (let a = grid_center (hd chain); b = grid_center (last chain)
      in (a, lerp3 (1 / 3) a b, lerp3 (2 / 3) a b, b))"

definition grid_curve_eval :: "point \<times> point \<times> point \<times> point \<Rightarrow> nat \<Rightarrow> point" where
  "grid_curve_eval c i =
     (case c of (p0, p1, p2, p3) \<Rightarrow>
        let t = real i / 10;
            q0 = lerp3 t p0 p1; q1 = lerp3 t p1 p2; q2 = lerp3 t p2 p3
        in lerp3 t (lerp3 t q0 q1) (lerp3 t q1 q2))"

text \<open>
  The view looks straight down from height 100; the source surface is the plane \<open>z = 0\<close>
  under the grid.
\<close>

definition top_raycast :: "point2D \<Rightarrow> point option" where
  "top_raycast v =
     (case v of (x, y) \<Rightarrow>
        if 0 \<le> x \<and> x \<le> 30 \<and> 0 \<le> y \<and> y \<le> 20 then Some (x, y, 0) else None)"

definition grid_env :: "bmface list \<Rightarrow> int \<Rightarrow> (point, point2D, bmface \<times> bmface) env" where
  "grid_env selected cap =
     \<lparr> get_selected_faces = selected,
       verts = grid_verts,
       edges = grid_edges,
       neighbor_edges = grid_neighbor_edges,
       is_boundaryvert = grid_is_boundaryvert,
       is_boundaryedge = grid_is_boundaryedge,
       crawl_strip = grid_crawl (Suc (Suc (Suc (Suc 0)))),
       hash_face_pair = Pair,
       max_strips = cap,
       pop_order = (\<lambda>bs. bs),
       iter_order = (\<lambda>fs. fs),
       fit_curve = grid_fit_curve,
       curve_eval = grid_curve_eval,
       Point_to_Point2D = (\<lambda>(x, y, z). Some (x, y)),
       raycast_sources_Point2D = top_raycast,
       Point_eq = (=),
       vec_add = (\<lambda>(ax, ay) (bx, by). (ax + bx, ay + by)),
       vec_sub = (\<lambda>(ax, ay) (bx, by). (ax - bx, ay - by)),
       vec_length = (\<lambda>(x, y). sqrt (x * x + y * y)),
       select_dist = 5,
       view_dot = (\<lambda>v w. 1),
       Point_to_depth = (\<lambda>(x, y, z). 100 - z),
       ray_eval = (\<lambda>(x, y) t. (x, y, 100 - t)) \<rparr>"

text \<open>The tool after \<^verbatim>\<open>reset\<close>, in its \<^verbatim>\<open>main\<close> state, before any detection.\<close>

definition reset_state :: "(point, point2D) state" where
  "reset_state =
     \<lparr> fsm_state = ''main'',
       strips = [],
       strip_pts = [],
       hovering_strips = [],
       hovering_handles = [],
       sel_cbpts = [],
       mod_strips = [],
       mousedown = (0, 0),
       mouselast = (0, 0),
       rfwidget = ''brushstroke'',
       cursor = ''CROSSHAIR'',
       move_done_pressed = ''confirm'',
       move_done_released = ''action'',
       move_cancelled = ''cancel'',
       xyz = (\<lambda>r. (0, 0, 0)),
       next_ref = 0,
       trace = [] \<rparr>"

subsection \<open>Two drags on the grid\<close>

text \<open>
  Faces 0 to 3 are selected: the top row and the face below its left end.  Detection gives
  strip A along the top row (control points 0, 1, 2, 3) and strip B from face 0 down
  to face 3 (control points 4, 5, 6, 7); A and B start at the centre of face 0.

  First drag: the pointer presses on A's inner handle 2, moves it onto the centre of face
  0 and releases.  Second drag: the pointer presses on A's outer point 3 and moves one
  pixel to the right.  The state machine that calls \<^verbatim>\<open>main\<close>, \<^verbatim>\<open>movehandle_enter\<close>
  and \<^verbatim>\<open>modal_handle\<close> is not part of the file; it is taken to set the state name
  between the calls.
\<close>

abbreviation block_env :: "(point, point2D, bmface \<times> bmface) env" where
  "block_env \<equiv> grid_env [0, 1, 2, 3] 0"

definition pointer :: "point2D \<Rightarrow> string list \<Rightarrow> string list \<Rightarrow> point2D actions" where
  "pointer m down up =
     \<lparr> mouse = m, ctrl = False, shift = False,
       pressed = (\<lambda>a. a \<in> set down), released = (\<lambda>a. a \<in> set up),
       selection_painting = None \<rparr>"

definition block_state :: "(point, point2D) state" where
  "block_state =
     (case update_target block_env reset_state of Inr s \<Rightarrow> s | Inl e \<Rightarrow> reset_state)"

definition hover1_state :: "(point, point2D) state" where
  "hover1_state = snd (main block_env (pointer (55 / 3, 5) [''action''] []) block_state)"

definition enter1_state :: "(point, point2D) state" where
  "enter1_state = movehandle_enter block_env (pointer (55 / 3, 5) [''action''] [])
                    (hover1_state\<lparr>fsm_state := ''move handle''\<rparr>)"

definition moved1_state :: "(point, point2D) state" where
  "moved1_state = (case modal_handle block_env (pointer (5, 5) [] []) enter1_state of
                     Inr (r, s) \<Rightarrow> s | Inl e \<Rightarrow> enter1_state)"

definition first_drag_state :: "(point, point2D) state" where
  "first_drag_state = moved1_state\<lparr>fsm_state := ''main''\<rparr>"

definition hover2_state :: "(point, point2D) state" where
  "hover2_state = snd (main block_env (pointer (25, 5) [''action''] []) first_drag_state)"

definition enter2_state :: "(point, point2D) state" where
  "enter2_state = movehandle_enter block_env (pointer (25, 5) [''action''] [])
                    (hover2_state\<lparr>fsm_state := ''move handle''\<rparr>)"

subsection \<open>A drag under a view that does not see every handle\<close>




subsection \<open>Running the model on the grid\<close>

lemmas grid_simps =
  grid_env_def reset_state_def update_target_def selected_quads_def boundaries_def
  grid_verts_def grid_edges_def grid_faces_def grid_neighbor_edges_def grid_opposite_def
  grid_is_boundaryedge_def grid_is_boundaryvert_def first_pass_junction_def set_add_def
  add_strip_def junction_strips_def append_strip_def update_strip_viz_def
  grid_fit_curve_def Let_def

text \<open>
  The top row selected: the two end faces are junctions, the middle face is passed
  through, and detection yields one strip of three faces.
\<close>

lemma detect_row:
  "\<exists>s'. update_target (grid_env [0, 1, 2] 0) reset_state = Inr s' \<and>
        strips s' = [Strip [0, 1, 2] (0, 1, 2, 3)] \<and> length (strip_pts s') = 1 \<and>
        fsm_state s' = ''main''"
proof -
  have "(case update_target (grid_env [0, 1, 2] 0) reset_state of
           Inl e \<Rightarrow> None | Inr s' \<Rightarrow> Some (strips s', length (strip_pts s'), fsm_state s'))
        = Some ([Strip [0, 1, 2] (0, 1, 2, 3)], 1, ''main'')"
    by (simp add: grid_simps)
  then show ?thesis by (auto split: sum.splits)
qed

text \<open>
  Faces 0, 1 and 4 selected, an L with its corner at face 1: all three are junctions, and
  detection yields the two strips that meet at the corner.  The crawls back from face 1
  to face 0 and from face 4 to face 1 find their pairs registered.
\<close>

lemma detect_corner:
  "\<exists>s'. update_target (grid_env [0, 1, 4] 0) reset_state = Inr s' \<and>
        strips s' = [Strip [0, 1] (0, 1, 2, 3), Strip [1, 4] (4, 5, 6, 7)]"
proof -
  have "(case update_target (grid_env [0, 1, 4] 0) reset_state of
           Inl e \<Rightarrow> None | Inr s' \<Rightarrow> Some (strips s'))
        = Some [Strip [0, 1] (0, 1, 2, 3), Strip [1, 4] (4, 5, 6, 7)]"
    by (simp add: grid_simps)
  then show ?thesis by (auto split: sum.splits)
qed

lemma grid_crawl_hd: "grid_crawl n f e Q J = Some c \<Longrightarrow> hd c = f"
  by (cases n) (auto split: list.splits if_splits option.splits)

text \<open>The selection distance of the grid's view is 5.\<close>

lemma sqrt_25 [simp]: "sqrt 25 = 5"
  by (rule real_sqrt_unique) simp_all

lemma sqrt_gt_5 [simp]: "(5 < sqrt x) = (25 < x)"
  using real_sqrt_less_iff [of 25 x] by simp

lemma block_state_eval:
  "update_target block_env reset_state = Inr block_state \<and>
   strips block_state = [Strip [0, 1, 2] (0, 1, 2, 3), Strip [0, 3] (4, 5, 6, 7)] \<and>
   map (xyz block_state) [0, 1, 2, 3, 4, 5, 6, 7] =
     [(5, 5, 0), (35 / 3, 5, 0), (55 / 3, 5, 0), (25, 5, 0),
      (5, 5, 0), (5, 25 / 3, 0), (5, 35 / 3, 0), (5, 15, 0)] \<and>
   fsm_state block_state = ''main'' \<and> trace block_state = [StripViz]"
  by (simp add: block_state_def grid_simps grid_center_def lerp3_def)

lemma block_xyz:
  "xyz block_state 0 = (5, 5, 0)" "xyz block_state (Suc 0) = (35 / 3, 5, 0)"
  "xyz block_state 2 = (55 / 3, 5, 0)" "xyz block_state 3 = (25, 5, 0)"
  "xyz block_state 4 = (5, 5, 0)" "xyz block_state 5 = (5, 25 / 3, 0)"
  "xyz block_state 6 = (5, 35 / 3, 0)" "xyz block_state 7 = (5, 15, 0)"
  using block_state_eval by simp_all

lemma block_strips:
  "strips block_state = [Strip [0, 1, 2] (0, 1, 2, 3), Strip [0, 3] (4, 5, 6, 7)]"
  using block_state_eval by simp

lemmas drag_simps =
  main_def hover_strip_def hover_point_def curve_list_def movehandle_enter_def pull_inner_def
  pt_in_def pointer_def set_add_def grid_env_def Let_def

lemmas step_simps =
  modal_handle_def move_cbpt_def pointer_def top_raycast_def update_strip_viz_def
  grid_env_def Let_def

text \<open>First drag: only handle 2 is in reach, and only it is in the edit set.\<close>

lemma hover1_state_eval:
  "main block_env (pointer (55 / 3, 5) [''action''] []) block_state = (Some ''move handle'', hover1_state) \<and>
   hover1_state = block_state\<lparr>hovering_handles := [2], hovering_strips := [Strip [0, 1, 2] (0, 1, 2, 3)],
                  rfwidget := ''move'', cursor := ''HAND''\<rparr>"
  by (simp add: hover1_state_def drag_simps block_xyz block_strips)

lemma enter1_state_eval:
  "sel_cbpts enter1_state = [(2, True, (55 / 3, 5, 0), Some (55 / 3, 5))]"
  "hovering_strips enter1_state = [Strip [0, 1, 2] (0, 1, 2, 3)]"
  "strips enter1_state = strips block_state"
  "xyz enter1_state = xyz block_state"
  "mousedown enter1_state = (55 / 3, 5)" "mouselast enter1_state = (55 / 3, 5)"
  "move_done_pressed enter1_state = ''confirm''" "move_done_released enter1_state = ''action''"
  "move_cancelled enter1_state = ''cancel''"
  "trace enter1_state =
     [StripViz, CaptureEdges (Strip [0, 1, 2] (0, 1, 2, 3)), UndoPush ''manipulate bezier'']"
  by (simp_all add: enter1_state_def hover1_state_eval [THEN conjunct2] drag_simps
        block_xyz block_strips block_state_eval)

lemma moved1_state_eval:
  "modal_handle block_env (pointer (5, 5) [] []) enter1_state = Inr (None, moved1_state)"
  "strips moved1_state = strips block_state"
  "xyz moved1_state = (xyz block_state)(2 := (5, 5, 0))"
  "modal_handle block_env (pointer (5, 5) [] [''action'']) moved1_state = Inr (Some ''main'', moved1_state)"
  "trace moved1_state =
     [StripViz, CaptureEdges (Strip [0, 1, 2] (0, 1, 2, 3)), UndoPush ''manipulate bezier'',
      Update (Strip [0, 1, 2] (0, 1, 2, 3)), StripViz]"
  by (simp_all add: moved1_state_def enter1_state_eval step_simps)

text \<open>
  After the first drag, handle 2 of strip A lies where the outer points 0 of A and 4 of B
  lie.
\<close>

lemma first_drag_xyz:
  "xyz first_drag_state 0 = (5, 5, 0)" "xyz first_drag_state (Suc 0) = (35 / 3, 5, 0)"
  "xyz first_drag_state 2 = (5, 5, 0)" "xyz first_drag_state 3 = (25, 5, 0)"
  "xyz first_drag_state 4 = (5, 5, 0)" "xyz first_drag_state 5 = (5, 25 / 3, 0)"
  "xyz first_drag_state 6 = (5, 35 / 3, 0)" "xyz first_drag_state 7 = (5, 15, 0)"
  by (simp_all add: first_drag_state_def moved1_state_eval block_xyz)

lemma first_drag_strips:
  "strips first_drag_state = [Strip [0, 1, 2] (0, 1, 2, 3), Strip [0, 3] (4, 5, 6, 7)]"
  by (simp add: first_drag_state_def moved1_state_eval block_strips)

lemma first_drag_trace:
  "trace first_drag_state =
     [StripViz, CaptureEdges (Strip [0, 1, 2] (0, 1, 2, 3)), UndoPush ''manipulate bezier'',
      Update (Strip [0, 1, 2] (0, 1, 2, 3)), StripViz]"
  by (simp add: first_drag_state_def moved1_state_eval)

text \<open>
  Second drag: only the outer point 3 of A is in reach.  Entering pulls in A's handle 2,
  and then B's handle 5, because B's outer point 4 compares equal to handle 2.
\<close>

lemma hover2_state_eval:
  "main block_env (pointer (25, 5) [''action''] []) first_drag_state = (Some ''move handle'', hover2_state) \<and>
   hover2_state = first_drag_state\<lparr>hovering_handles := [3], hovering_strips := [Strip [0, 1, 2] (0, 1, 2, 3)],
                  rfwidget := ''move'', cursor := ''HAND''\<rparr>"
  by (simp add: hover2_state_def drag_simps first_drag_xyz first_drag_strips)

lemma enter2_state_eval:
  "sel_cbpts enter2_state = [(3, False, (25, 5, 0), Some (25, 5)), (2, True, (5, 5, 0), Some (5, 5)),
                             (5, True, (5, 25 / 3, 0), Some (5, 25 / 3))]"
  "mod_strips enter2_state = [Strip [0, 1, 2] (0, 1, 2, 3), Strip [0, 3] (4, 5, 6, 7)]"
  "hovering_strips enter2_state = [Strip [0, 1, 2] (0, 1, 2, 3)]"
  "hovering_handles enter2_state = [3]"
  "strips enter2_state = strips first_drag_state"
  "xyz enter2_state = xyz first_drag_state"
  "mousedown enter2_state = (25, 5)" "mouselast enter2_state = (25, 5)"
  "move_done_pressed enter2_state = ''confirm''" "move_done_released enter2_state = ''action''"
  "move_cancelled enter2_state = ''cancel''"
  "trace enter2_state =
     [StripViz, CaptureEdges (Strip [0, 1, 2] (0, 1, 2, 3)), UndoPush ''manipulate bezier'',
      Update (Strip [0, 1, 2] (0, 1, 2, 3)), StripViz,
      CaptureEdges (Strip [0, 1, 2] (0, 1, 2, 3)), CaptureEdges (Strip [0, 3] (4, 5, 6, 7)),
      UndoPush ''manipulate bezier'']"
  by (simp_all add: enter2_state_def hover2_state_eval [THEN conjunct2] drag_simps
        first_drag_xyz first_drag_strips first_drag_trace)

lemma moved2_state_eval:
  "\<exists>s'. modal_handle block_env (pointer (26, 5) [] []) enter2_state = Inr (None, s') \<and>
        xyz s' 3 = (26, 5, 0) \<and> xyz s' 2 = (6, 5, 0) \<and> xyz s' 5 = (6, 25 / 3, 0) \<and>
        trace s' = trace enter2_state @ [Raycast (26, 5), Update (Strip [0, 1, 2] (0, 1, 2, 3)), StripViz]"
  by (simp add: enter2_state_eval step_simps)




subsection \<open>The strip loop keeps an invariant\<close>

lemma strips_append_strip:
  "strips (append_strip env c s) =
     strips s @ [Strip c (next_ref s, next_ref s + 1, next_ref s + 2, next_ref s + 3)]"
  by (simp add: append_strip_def Let_def split: prod.splits)

lemma strips_update_strip_viz: "strips (update_strip_viz env s) = strips s"
  by (simp add: update_strip_viz_def)

text \<open>A call of \<^verbatim>\<open>add_strip\<close> changes nothing, or registers a pair and appends a strip.\<close>

lemma add_strip_cases:
  assumes "add_strip env Q J f e (t, s) = (t', s')"
  shows "(t' = t \<and> s' = s) \<or>
         (\<exists>c. crawl_strip env f e Q J = Some c \<and> 1 < length c \<and>
              hash_face_pair env f (last c) \<notin> t \<and>
              t' = insert (hash_face_pair env (last c) f) (insert (hash_face_pair env f (last c)) t) \<and>
              s' = append_strip env c s)"
  using assms by (auto simp: add_strip_def Let_def split: option.splits if_splits)

lemma junction_strips_invariant:
  assumes run: "junction_strips env Q J f ts = Inr ts'"
      and init: "P ts"
      and step: "\<And>e ts. P ts \<Longrightarrow> P (add_strip env Q J f e ts)"
  shows "P ts'"
proof -
  obtain e0 e1 e2 e3 where E: "edges env f = [e0, e1, e2, e3]"
    using run by (auto simp: junction_strips_def split: list.splits)
  define ts0 where "ts0 = (if \<not> is_boundaryedge env e0 Q then add_strip env Q J f e0 ts else ts)"
  define ts1 where "ts1 = (if \<not> is_boundaryedge env e1 Q then add_strip env Q J f e1 ts0 else ts0)"
  define ts2 where "ts2 = (if \<not> is_boundaryedge env e2 Q then add_strip env Q J f e2 ts1 else ts1)"
  define ts3 where "ts3 = (if \<not> is_boundaryedge env e3 Q then add_strip env Q J f e3 ts2 else ts2)"
  have "ts' = ts3"
    using run unfolding junction_strips_def E Let_def ts0_def ts1_def ts2_def ts3_def
    by (simp split del: if_split)
  moreover have "P ts0" using init step by (simp add: ts0_def)
  then have "P ts1" using step by (simp add: ts1_def)
  then have "P ts2" using step by (simp add: ts2_def)
  then have "P ts3" using step by (simp add: ts3_def)
  ultimately show ?thesis by simp
qed

text \<open>
  What every call of \<^verbatim>\<open>add_strip\<close> preserves holds when the loop ends, also when it
  ends at the \<^verbatim>\<open>break\<close> with the list cleared.
\<close>

lemma find_strips_invariant:
  assumes run: "find_strips env Q J fs ts = Inr s'"
      and init: "P ts"
      and step: "\<And>f e ts. P ts \<Longrightarrow> P (add_strip env Q J f e ts)"
      and final: "\<And>t s. P (t, s) \<Longrightarrow> R s"
      and cleared: "\<And>s. R (s\<lparr>strips := []\<rparr>)"
  shows "R s'"
  using run init
proof (induction fs arbitrary: ts)
  case Nil
  then show ?case using final [of "fst ts" "snd ts"] by (cases ts) simp
next
  case (Cons f fs)
  from Cons.prems(1) obtain t s where js: "junction_strips env Q J f ts = Inr (t, s)"
    by (auto split: sum.splits)
  have P': "P (t, s)"
    by (rule junction_strips_invariant [where P = P, OF js Cons.prems(2)]) (rule step)
  show ?case
  proof (cases "max_strips env \<noteq> 0 \<and> int (length (strips s)) > max_strips env")
    case True
    with Cons.prems(1) js have "s' = s\<lparr>strips := []\<rparr>" by simp
    then show ?thesis using cleared by simp
  next
    case False
    with Cons.prems(1) js have "find_strips env Q J fs (t, s) = Inr s'" by auto
    then show ?thesis using Cons.IH P' by blast
  qed
qed

text \<open>A handler call outside the \<^verbatim>\<open>move handle\<close> state that returns has taken one of two paths.\<close>

lemma update_target_detect:
  assumes "fsm_state s \<noteq> ''move handle''" and "update_target env s = Inr s'"
  shows "(selected_quads env = [] \<and> s' = s\<lparr>strips := []\<rparr>) \<or>
         (\<exists>junctions s2. selected_quads env \<noteq> [] \<and>
            find_strips env (set (selected_quads env)) (set junctions) (iter_order env junctions)
              ({}, s\<lparr>strips := []\<rparr>) = Inr s2 \<and>
            s' = update_strip_viz env s2)"
  using assms
  by (auto simp: update_target_def Let_def split: if_splits sum.splits)

lemma add_strip_long:
  assumes "\<forall>st \<in> set (strips (snd ts)). 2 \<le> length (bmf_strip st)"
  shows "\<forall>st \<in> set (strips (snd (add_strip env Q J f e ts))). 2 \<le> length (bmf_strip st)"
proof -
  obtain t s where ts: "ts = (t, s)" by (cases ts)
  obtain t' s' where r: "add_strip env Q J f e (t, s) = (t', s')"
    by (cases "add_strip env Q J f e (t, s)")
  from add_strip_cases [OF r] show ?thesis
    using assms ts r by (auto simp: strips_append_strip)
qed

lemma add_strip_registered:
  assumes contract: "\<And>f e Q J c. crawl_strip env f e Q J = Some c \<Longrightarrow> c \<noteq> [] \<Longrightarrow> hd c = f"
      and inv: "registered env ts"
  shows "registered env (add_strip env Q J f e ts)"
proof -
  obtain t s where ts: "ts = (t, s)" by (cases ts)
  obtain t' s' where r: "add_strip env Q J f e (t, s) = (t', s')"
    by (cases "add_strip env Q J f e (t, s)")
  from add_strip_cases [OF r] show ?thesis
  proof (elim disjE exE conjE)
    assume "t' = t" "s' = s"
    then show ?thesis using inv ts r by simp
  next
    fix c
    assume c: "crawl_strip env f e Q J = Some c" and len: "1 < length c"
      and fresh: "hash_face_pair env f (last c) \<notin> t"
      and t': "t' = insert (hash_face_pair env (last c) f) (insert (hash_face_pair env f (last c)) t)"
      and s': "s' = append_strip env c s"
    from len have "c \<noteq> []" by auto
    with contract c have hd: "hd c = f" by blast
    have new: "{f, last c} \<notin> end_pair ` set (strips s)"
    proof
      assume "{f, last c} \<in> end_pair ` set (strips s)"
      then obtain st where st: "st \<in> set (strips s)"
        and eq: "{hd (bmf_strip st), last (bmf_strip st)} = {f, last c}"
        by (auto simp: end_pair_def)
      from eq have "(hd (bmf_strip st) = f \<and> last (bmf_strip st) = last c) \<or>
                    (hd (bmf_strip st) = last c \<and> last (bmf_strip st) = f)"
        by (auto simp: doubleton_eq_iff)
      with inv st ts have "hash_face_pair env f (last c) \<in> t"
        by (auto simp: registered_def)
      with fresh show False by contradiction
    qed
    show ?thesis
      using inv new hd unfolding ts r registered_def
      by (auto simp: t' s' strips_append_strip end_pair_def)
  qed
qed

subsection \<open>The cap is the only use of the option\<close>

lemma first_pass_junction_cap [simp]:
  "first_pass_junction (env\<lparr>max_strips := k\<rparr>) Q f = first_pass_junction env Q f"
  by (simp add: first_pass_junction_def)

lemma find_junctions_cap [simp]:
  "find_junctions (env\<lparr>max_strips := k\<rparr>) Q fs js = find_junctions env Q fs js"
  by (induction fs arbitrary: js) (simp_all split: sum.splits)

lemma crawl_neighbors_cap [simp]:
  "crawl_neighbors (env\<lparr>max_strips := k\<rparr>) Q f es js = crawl_neighbors env Q f es js"
  by (induction es arbitrary: js) (simp_all split: option.splits)

lemma crawl_boundaries_cap [simp]:
  "crawl_boundaries (env\<lparr>max_strips := k\<rparr>) Q bs js = crawl_boundaries env Q bs js"
  by (induction bs arbitrary: js) (auto split: sum.splits)

lemma add_strip_cap [simp]:
  "add_strip (env\<lparr>max_strips := k\<rparr>) Q J f e ts = add_strip env Q J f e ts"
  by (cases ts) (simp add: add_strip_def append_strip_def Let_def split: option.splits)

lemma junction_strips_cap [simp]:
  "junction_strips (env\<lparr>max_strips := k\<rparr>) Q J f ts = junction_strips env Q J f ts"
  by (simp add: junction_strips_def Let_def split: list.splits)

lemma update_strip_viz_cap [simp]:
  "update_strip_viz (env\<lparr>max_strips := k\<rparr>) s = update_strip_viz env s"
  by (simp add: update_strip_viz_def)

lemma selected_quads_cap [simp]: "selected_quads (env\<lparr>max_strips := k\<rparr>) = selected_quads env"
  by (simp add: selected_quads_def)

lemma boundaries_cap [simp]: "boundaries (env\<lparr>max_strips := k\<rparr>) qs = boundaries env qs"
  by (simp add: boundaries_def)

text \<open>
  The loop without a cap and the loop with cap \<open>K\<close> go the same way until the list is
  longer than \<open>K\<close> after some junction, which happens when the uncapped list ends longer
  than \<open>K\<close>.
\<close>

lemma find_strips_over_cap:
  assumes "find_strips (env\<lparr>max_strips := 0\<rparr>) Q J fs ts = Inr s0"
      and "K < int (length (strips s0))"
      and "0 < K"
      and "int (length (strips (snd ts))) \<le> K"
  shows "\<exists>s'. find_strips (env\<lparr>max_strips := K\<rparr>) Q J fs ts = Inr s' \<and> strips s' = []"
  using assms
proof (induction fs arbitrary: ts)
  case Nil
  then show ?case by simp
next
  case (Cons f fs)
  from Cons.prems(1) obtain t s where js: "junction_strips env Q J f ts = Inr (t, s)"
    by (auto split: sum.splits)
  with Cons.prems(1) have rest: "find_strips (env\<lparr>max_strips := 0\<rparr>) Q J fs (t, s) = Inr s0"
    by simp
  show ?case
  proof (cases "K < int (length (strips s))")
    case True
    then show ?thesis using js Cons.prems(3) by simp
  next
    case False
    then have "int (length (strips (snd (t, s)))) \<le> K" by simp
    from Cons.IH [OF rest Cons.prems(2,3) this] show ?thesis using js False by simp
  qed
qed

subsection \<open>The first pass\<close>

lemma set_set_add [simp]: "set (set_add x xs) = insert x (set xs)"
  by (auto simp: set_add_def)

lemma find_junctions_set:
  "find_junctions env Q fs js = Inr js' \<Longrightarrow>
   set js' = set js \<union> {f \<in> set fs. first_pass_junction env Q f = Inr True}"
proof (induction fs arbitrary: js)
  case Nil
  then show ?case by simp
next
  case (Cons f fs)
  from Cons.prems obtain b where b: "first_pass_junction env Q f = Inr b"
    and rest: "find_junctions env Q fs (if b then set_add f js else js) = Inr js'"
    by (auto split: sum.splits)
  from Cons.IH [OF rest] b show ?case by (cases b) auto
qed

lemma selected_quads_empty:
  "selected_quads env = [] \<longleftrightarrow> (\<forall>bmf \<in> set (get_selected_faces env). length (verts env bmf) \<noteq> 4)"
  by (auto simp: selected_quads_def filter_empty_conv)

lemmas grid_first_pass_simps =
  grid_env_def selected_quads_def grid_verts_def grid_edges_def grid_faces_def
  grid_is_boundaryedge_def grid_is_boundaryvert_def first_pass_junction_def set_add_def

subsection \<open>Properties of update_target\<close>

text \<open>
  C1, as the code has it.  Take a selected quad with a vertex on the selection boundary and
  the boundary flags \<open>edge0\<close>, \<open>edge1\<close>, \<open>edge2\<close>, \<open>edge3\<close> of its four edges.  The first
  pass classifies it as a junction exactly when both opposing pairs have a boundary edge or
  neither has.  So a face whose boundary edges are confined to one opposing pair (at least
  one of \<open>edge0\<close>, \<open>edge2\<close> and neither of \<open>edge1\<close>, \<open>edge3\<close>, or the other way round) is
  never classified as a junction by the first pass.
\<close>

theorem first_pass_junction_iff:
  assumes "find_junctions env (set (selected_quads env)) (selected_quads env) [] = Inr junctions"
      and "bmf \<in> set (selected_quads env)"
      and "\<exists>bmv \<in> set (verts env bmf). is_boundaryvert env bmv (set (selected_quads env))"
      and "map (\<lambda>bme. is_boundaryedge env bme (set (selected_quads env))) (edges env bmf)
             = [edge0, edge1, edge2, edge3]"
  shows "bmf \<in> set junctions \<longleftrightarrow> ((edge0 \<or> edge2) \<longleftrightarrow> (edge1 \<or> edge3))"
proof -
  have "first_pass_junction env (set (selected_quads env)) bmf = Inr True
          \<longleftrightarrow> ((edge0 \<or> edge2) \<longleftrightarrow> (edge1 \<or> edge3))"
    using assms(3,4) by (auto simp: first_pass_junction_def)
  with find_junctions_set [OF assms(1)] assms(2) show ?thesis by auto
qed

text \<open>
  In the top row, the middle face 1 has its top and bottom edges on the boundary and its
  left and right edges inside: the first pass leaves it out.
\<close>

theorem first_pass_junction_iff_witness:
  "find_junctions (grid_env [0, 1, 2] 0) (set (selected_quads (grid_env [0, 1, 2] 0)))
     (selected_quads (grid_env [0, 1, 2] 0)) [] = Inr [0, 2] \<and>
   1 \<in> set (selected_quads (grid_env [0, 1, 2] 0)) \<and>
   (\<exists>bmv \<in> set (verts (grid_env [0, 1, 2] 0) 1).
       is_boundaryvert (grid_env [0, 1, 2] 0) bmv (set (selected_quads (grid_env [0, 1, 2] 0)))) \<and>
   map (\<lambda>bme. is_boundaryedge (grid_env [0, 1, 2] 0) bme (set (selected_quads (grid_env [0, 1, 2] 0))))
       (edges (grid_env [0, 1, 2] 0) 1) = [True, False, True, False] \<and>
   1 \<notin> set [0, 2 :: nat]"
  using first_pass_junction_iff [of "grid_env [0, 1, 2] 0" "[0, 2]" 1 True False True False]
  by (simp add: grid_first_pass_simps)

text \<open>
  C1, as stated, fails.  In the L of faces 0, 1 and 4 the corner face 1 has vertex 2 on the
  boundary; of its edges (top 1, right 11, bottom 4, left 10) exactly one of the pair
  top/bottom and exactly one of the pair right/left are boundary edges; and the first pass
  classifies it as a junction.
\<close>

theorem corner_face_is_junction:
  "selected_quads (grid_env [0, 1, 4] 0) = [0, 1, 4] \<and>
   2 \<in> set (verts (grid_env [0, 1, 4] 0) 1) \<and>
   is_boundaryvert (grid_env [0, 1, 4] 0) 2 (set (selected_quads (grid_env [0, 1, 4] 0))) \<and>
   edges (grid_env [0, 1, 4] 0) 1 = [1, 11, 4, 10] \<and>
   is_boundaryedge (grid_env [0, 1, 4] 0) 1 (set (selected_quads (grid_env [0, 1, 4] 0))) \<and>
   \<not> is_boundaryedge (grid_env [0, 1, 4] 0) 4 (set (selected_quads (grid_env [0, 1, 4] 0))) \<and>
   is_boundaryedge (grid_env [0, 1, 4] 0) 11 (set (selected_quads (grid_env [0, 1, 4] 0))) \<and>
   \<not> is_boundaryedge (grid_env [0, 1, 4] 0) 10 (set (selected_quads (grid_env [0, 1, 4] 0))) \<and>
   first_pass_junction (grid_env [0, 1, 4] 0) (set (selected_quads (grid_env [0, 1, 4] 0))) 1 = Inr True \<and>
   find_junctions (grid_env [0, 1, 4] 0) (set (selected_quads (grid_env [0, 1, 4] 0)))
     (selected_quads (grid_env [0, 1, 4] 0)) [] = Inr [0, 1, 4]"
  by (simp add: grid_first_pass_simps)

text \<open>
  C2. Take a cap \<open>K > 0\<close> and a handler call outside the \<^verbatim>\<open>move handle\<close> state.  If
  the call with the option unset (0) returns more than \<open>K\<close> strips, then the call with
  the option set to \<open>K\<close> returns with the strip list empty.
\<close>

theorem update_target_over_cap:
  assumes "0 < K"
      and "fsm_state s \<noteq> ''move handle''"
      and "update_target (env\<lparr>max_strips := 0\<rparr>) s = Inr s0"
      and "K < int (length (strips s0))"
  shows "\<exists>s'. update_target (env\<lparr>max_strips := K\<rparr>) s = Inr s' \<and> strips s' = []"
proof (cases "selected_quads env = []")
  case True
  then show ?thesis using assms(2) by (simp add: update_target_def)
next
  case False
  from assms(2,3) False obtain corners junctions s2 where
    c: "find_junctions env (set (selected_quads env)) (selected_quads env) [] = Inr corners" and
    j: "crawl_boundaries env (set (selected_quads env))
          (pop_order env (boundaries env (selected_quads env))) corners = Inr junctions" and
    f: "find_strips (env\<lparr>max_strips := 0\<rparr>) (set (selected_quads env)) (set junctions)
          (iter_order env junctions) ({}, s\<lparr>strips := []\<rparr>) = Inr s2" and
    s0: "s0 = update_strip_viz env s2"
    by (auto simp: update_target_def Let_def split: sum.splits)
  have "K < int (length (strips s2))" using assms(4) by (simp add: s0 update_strip_viz_def)
  from find_strips_over_cap [OF f this assms(1)] obtain s' where
    "find_strips (env\<lparr>max_strips := K\<rparr>) (set (selected_quads env)) (set junctions)
          (iter_order env junctions) ({}, s\<lparr>strips := []\<rparr>) = Inr s'" and "strips s' = []"
    using assms(1) by auto
  then show ?thesis using assms(2) False c j
    by (simp add: update_target_def Let_def update_strip_viz_def)
qed

text \<open>The L of faces 0, 1 and 4 has two strips; with the cap at 1 nothing is returned.\<close>

theorem update_target_over_cap_witness:
  "(0::int) < 1 \<and> fsm_state reset_state \<noteq> ''move handle'' \<and>
   (\<exists>s0. update_target (grid_env [0, 1, 4] 0) reset_state = Inr s0 \<and> 1 < int (length (strips s0))) \<and>
   (\<exists>s'. update_target (grid_env [0, 1, 4] 1) reset_state = Inr s' \<and> strips s' = [])"
proof -
  have e0: "(grid_env [0, 1, 4] 0)\<lparr>max_strips := 0\<rparr> = grid_env [0, 1, 4] 0"
    and e1: "(grid_env [0, 1, 4] 0)\<lparr>max_strips := 1\<rparr> = grid_env [0, 1, 4] 1"
    by (simp_all add: grid_env_def)
  have st: "fsm_state reset_state \<noteq> ''move handle''" by (simp add: reset_state_def)
  obtain s0 where run: "update_target (grid_env [0, 1, 4] 0) reset_state = Inr s0"
    and len: "1 < int (length (strips s0))"
    using detect_corner by auto
  have pos: "(0::int) < 1" by simp
  have run0: "update_target ((grid_env [0, 1, 4] 0)\<lparr>max_strips := 0\<rparr>) reset_state = Inr s0"
    using run by (simp only: e0)
  have "\<exists>s'. update_target (grid_env [0, 1, 4] 1) reset_state = Inr s' \<and> strips s' = []"
    using update_target_over_cap [OF pos st run0 len] by (simp only: e1)
  with pos st run len show ?thesis by blast
qed

text \<open>
  C3. Let every chain that a crawl returns start at the face the crawl started from.
  After a detection pass (a handler call outside the \<^verbatim>\<open>move handle\<close> state) that
  completes, no two strips of the list have the same unordered pair of end faces.  And
  whenever a crawl from \<open>f0\<close> ends at a face \<open>f1\<close> whose key with \<open>f0\<close> is in
  \<^verbatim>\<open>touched\<close>, \<^verbatim>\<open>add_strip\<close> appends nothing.
\<close>

theorem strips_distinct_end_pairs:
  assumes contract: "\<And>f e Q J c. crawl_strip env f e Q J = Some c \<Longrightarrow> c \<noteq> [] \<Longrightarrow> hd c = f"
      and state: "fsm_state s \<noteq> ''move handle''"
      and run: "update_target env s = Inr s'"
  shows "distinct (map (\<lambda>st. {hd (bmf_strip st), last (bmf_strip st)}) (strips s')) \<and>
         (\<forall>Q J f0 e touched c. \<forall>s0 :: ('p, 'q) state.
            crawl_strip env f0 e Q J = Some c \<and> hash_face_pair env f0 (last c) \<in> touched
            \<longrightarrow> add_strip env Q J f0 e (touched, s0) = (touched, s0))"
proof
  have "distinct (map end_pair (strips s'))"
    using update_target_detect [OF state run]
  proof (elim disjE exE conjE)
    assume "s' = s\<lparr>strips := []\<rparr>"
    then show ?thesis by simp
  next
    fix junctions s2
    assume f: "find_strips env (set (selected_quads env)) (set junctions) (iter_order env junctions)
              ({}, s\<lparr>strips := []\<rparr>) = Inr s2"
      and s': "s' = update_strip_viz env s2"
    have "distinct (map end_pair (strips s2))"
    proof (rule find_strips_invariant [OF f, where P = "registered env"])
      show "registered env ({}, s\<lparr>strips := []\<rparr>)" by (simp add: registered_def)
    next
      fix f e ts assume "registered env ts"
      then show "registered env (add_strip env (set (selected_quads env)) (set junctions) f e ts)"
        using contract by (rule add_strip_registered [rotated])
    next
      fix t s assume "registered env (t, s)"
      then show "distinct (map end_pair (strips s))" by (simp add: registered_def)
    next
      fix s :: "('p, 'q) state"
      show "distinct (map end_pair (strips (s\<lparr>strips := []\<rparr>)))" by simp
    qed
    then show ?thesis by (simp add: s' strips_update_strip_viz)
  qed
  then show "distinct (map (\<lambda>st. {hd (bmf_strip st), last (bmf_strip st)}) (strips s'))"
    by (simp add: end_pair_def [abs_def])
next
  show "\<forall>Q J f0 e touched c. \<forall>s0 :: ('p, 'q) state.
            crawl_strip env f0 e Q J = Some c \<and> hash_face_pair env f0 (last c) \<in> touched
            \<longrightarrow> add_strip env Q J f0 e (touched, s0) = (touched, s0)"
    by (simp add: add_strip_def Let_def)
qed

text \<open>
  In the L of faces 0, 1 and 4 four crawls succeed with two faces each (0 to 1, 1 to 4,
  1 to 0, 4 to 1); two strips are kept.
\<close>

theorem strips_distinct_end_pairs_witness:
  "\<not> (\<exists>f e Q J c. crawl_strip (grid_env [0, 1, 4] 0) f e Q J = Some c \<and> c \<noteq> [] \<and> hd c \<noteq> f) \<and>
   fsm_state reset_state \<noteq> ''move handle'' \<and>
   (\<exists>s'. update_target (grid_env [0, 1, 4] 0) reset_state = Inr s' \<and>
         strips s' = [Strip [0, 1] (0, 1, 2, 3), Strip [1, 4] (4, 5, 6, 7)] \<and>
         distinct (map (\<lambda>st. {hd (bmf_strip st), last (bmf_strip st)}) (strips s')))"
proof -
  have contract: "\<And>f e Q J c. crawl_strip (grid_env [0, 1, 4] 0) f e Q J = Some c \<Longrightarrow> c \<noteq> [] \<Longrightarrow> hd c = f"
    by (simp add: grid_env_def del: grid_crawl.simps) (erule grid_crawl_hd)
  have st: "fsm_state reset_state \<noteq> ''move handle''" by (simp add: reset_state_def)
  obtain s' where run: "update_target (grid_env [0, 1, 4] 0) reset_state = Inr s'"
    and res: "strips s' = [Strip [0, 1] (0, 1, 2, 3), Strip [1, 4] (4, 5, 6, 7)]"
    using detect_corner by blast
  have "distinct (map (\<lambda>st. {hd (bmf_strip st), last (bmf_strip st)}) (strips s'))"
  proof (rule strips_distinct_end_pairs [OF _ st run, THEN conjunct1])
    fix f e Q J c
    assume "crawl_strip (grid_env [0, 1, 4] 0) f e Q J = Some c" and "c \<noteq> []"
    then show "hd c = f" by (rule contract)
  qed
  moreover have "\<not> (\<exists>f e Q J c. crawl_strip (grid_env [0, 1, 4] 0) f e Q J = Some c \<and> c \<noteq> [] \<and> hd c \<noteq> f)"
    using contract by blast
  ultimately show ?thesis using st run res by blast
qed


text \<open>
  C4. After a detection pass (a handler call outside the \<^verbatim>\<open>move handle\<close> state) that
  completes, every strip in the strip list has a face chain of at least two faces: a crawl
  that returns a single face is never appended.
\<close>

theorem strips_have_two_faces:
  assumes "fsm_state s \<noteq> ''move handle''" and "update_target env s = Inr s'"
  shows "\<forall>st \<in> set (strips s'). 2 \<le> length (bmf_strip st)"
proof -
  from update_target_detect [OF assms] show ?thesis
  proof (elim disjE exE conjE)
    assume "s' = s\<lparr>strips := []\<rparr>"
    then show ?thesis by simp
  next
    fix junctions s2
    assume run: "find_strips env (set (selected_quads env)) (set junctions) (iter_order env junctions)
              ({}, s\<lparr>strips := []\<rparr>) = Inr s2"
      and s': "s' = update_strip_viz env s2"
    have "\<forall>st \<in> set (strips s2). 2 \<le> length (bmf_strip st)"
      by (rule find_strips_invariant [OF run,
            where P = "\<lambda>ts. \<forall>st \<in> set (strips (snd ts)). 2 \<le> length (bmf_strip st)"])
         (simp_all add: add_strip_long)
    then show ?thesis by (simp add: s' strips_update_strip_viz)
  qed
qed

theorem strips_have_two_faces_witness:
  "fsm_state reset_state \<noteq> ''move handle'' \<and>
   (\<exists>s'. update_target (grid_env [0, 1, 2] 0) reset_state = Inr s' \<and>
         strips s' = [Strip [0, 1, 2] (0, 1, 2, 3)] \<and>
         (\<forall>st \<in> set (strips s'). 2 \<le> length (bmf_strip st)))"
proof -
  have st: "fsm_state reset_state \<noteq> ''move handle''" by (simp add: reset_state_def)
  obtain s' where run: "update_target (grid_env [0, 1, 2] 0) reset_state = Inr s'"
    and res: "strips s' = [Strip [0, 1, 2] (0, 1, 2, 3)]"
    using detect_row by blast
  from strips_have_two_faces [OF st run] st run res show ?thesis by blast
qed


text \<open>
  C8. When the target-change handler runs while the state machine is in the
  \<^verbatim>\<open>move handle\<close> state, it returns at once and leaves every field of the tool as it
  was: the strip list, the polyline samples and the coordinates of every control point.
\<close>

theorem update_target_move_handle_noop:
  "fsm_state s = ''move handle'' \<Longrightarrow> update_target env s = Inr s"
  by (simp add: update_target_def)

theorem update_target_move_handle_noop_witness:
  "fsm_state (reset_state\<lparr>fsm_state := ''move handle'', strips := [Strip [0, 1, 2] (0, 1, 2, 3)]\<rparr>)
     = ''move handle'' \<and>
   update_target (grid_env [3, 4] 0)
     (reset_state\<lparr>fsm_state := ''move handle'', strips := [Strip [0, 1, 2] (0, 1, 2, 3)]\<rparr>)
     = Inr (reset_state\<lparr>fsm_state := ''move handle'', strips := [Strip [0, 1, 2] (0, 1, 2, 3)]\<rparr>)"
  using update_target_move_handle_noop
    [of "reset_state\<lparr>fsm_state := ''move handle'', strips := [Strip [0, 1, 2] (0, 1, 2, 3)]\<rparr>"
        "grid_env [3, 4] 0"]
  by simp

text \<open>
  C9. When the selection has no quadrilateral face (it may have other faces), a detection
  pass (a handler call outside the \<^verbatim>\<open>move handle\<close> state) returns with the strip list
  empty.
\<close>

theorem update_target_no_quads:
  assumes "fsm_state s \<noteq> ''move handle''"
      and "\<forall>bmf \<in> set (get_selected_faces env). length (verts env bmf) \<noteq> 4"
  shows "\<exists>s'. update_target env s = Inr s' \<and> strips s' = []"
  using assms selected_quads_empty [of env] by (simp add: update_target_def)

text \<open>Only the triangle selected.\<close>

theorem update_target_no_quads_witness:
  "fsm_state reset_state \<noteq> ''move handle'' \<and>
   get_selected_faces (grid_env [6] 0) \<noteq> [] \<and>
   \<not> (\<exists>bmf \<in> set (get_selected_faces (grid_env [6] 0)). length (verts (grid_env [6] 0) bmf) = 4) \<and>
   (\<exists>s'. update_target (grid_env [6] 0) reset_state = Inr s' \<and> strips s' = [])"
  using update_target_no_quads [of reset_state "grid_env [6] 0"]
  by (simp add: reset_state_def grid_env_def grid_verts_def)

text \<open>
  C10. When a detection pass runs on a selection without quadrilateral faces, the strip
  list is cleared and the handler returns before \<^verbatim>\<open>update_strip_viz\<close>: the polyline
  samples \<^verbatim>\<open>strip_pts\<close> are those of the previous pass, and no recomputation is
  recorded.  So samples that were not empty stay not empty beside the empty strip list.
\<close>

theorem update_target_no_quads_keeps_strip_pts:
  assumes "fsm_state s \<noteq> ''move handle''"
      and "\<forall>bmf \<in> set (get_selected_faces env). length (verts env bmf) \<noteq> 4"
  shows "\<exists>s'. update_target env s = Inr s' \<and> strips s' = [] \<and>
              strip_pts s' = strip_pts s \<and> trace s' = trace s \<and>
              (strip_pts s \<noteq> [] \<longrightarrow> strip_pts s' \<noteq> [])"
  using assms selected_quads_empty [of env] by (simp add: update_target_def)

text \<open>
  The top row is detected, then the selection changes to the triangle alone: the strip
  list is empty and the one polyline of the first pass is still there.
\<close>

theorem update_target_no_quads_keeps_strip_pts_witness:
  "\<exists>s1 s2. update_target (grid_env [0, 1, 2] 0) reset_state = Inr s1 \<and>
           fsm_state s1 \<noteq> ''move handle'' \<and>
           (\<forall>bmf \<in> set (get_selected_faces (grid_env [6] 0)). length (verts (grid_env [6] 0) bmf) \<noteq> 4) \<and>
           update_target (grid_env [6] 0) s1 = Inr s2 \<and>
           strips s2 = [] \<and> length (strip_pts s2) = 1"
proof -
  obtain s1 where run: "update_target (grid_env [0, 1, 2] 0) reset_state = Inr s1"
    and pts: "length (strip_pts s1) = 1" and st: "fsm_state s1 = ''main''"
    using detect_row by blast
  have st': "fsm_state s1 \<noteq> ''move handle''" using st by simp
  have tri: "\<forall>bmf \<in> set (get_selected_faces (grid_env [6] 0)). length (verts (grid_env [6] 0) bmf) \<noteq> 4"
    by (simp add: grid_env_def grid_verts_def)
  from update_target_no_quads_keeps_strip_pts [OF st' tri] obtain s2 where
    "update_target (grid_env [6] 0) s1 = Inr s2" "strips s2 = []" "strip_pts s2 = strip_pts s1"
    by blast
  with run pts st' tri show ?thesis by auto
qed

subsection \<open>Properties of the main state\<close>

lemma hover_point_xyz [simp]: "xyz (hover_point env acts st c s) = xyz s"
  by (simp add: hover_point_def split: option.splits)

lemma hover_point_handles:
  "hovering_handles (hover_point env acts st c s) =
     hovering_handles s @ (if in_reach env acts (xyz s) c then [c] else [])"
  by (simp add: hover_point_def in_reach_def split: option.splits)

lemma fold_hover_point:
  "xyz (fold (hover_point env acts st) cs s) = xyz s \<and>
   hovering_handles (fold (hover_point env acts st) cs s) =
     hovering_handles s @ filter (in_reach env acts (xyz s)) cs"
  by (induction cs arbitrary: s) (simp_all add: hover_point_handles)

lemma fold_hover_strip:
  "xyz (fold (hover_strip env acts) sts s) = xyz s \<and>
   hovering_handles (fold (hover_strip env acts) sts s) =
     hovering_handles s @ filter (in_reach env acts (xyz s)) (concat (map curve_list sts))"
  by (induction sts arbitrary: s) (simp_all add: hover_strip_def fold_hover_point)

text \<open>The hovered handles are the control points in reach, strip by strip.\<close>

lemma hovering_handles_main:
  "hovering_handles (snd (main env acts s)) =
     filter (in_reach env acts (xyz s)) (concat (map curve_list (strips s)))"
  by (simp add: main_def Let_def fold_hover_strip)

text \<open>
  C7, as the code has it.  After the hover computation of \<^verbatim>\<open>main\<close>, a control point is
  in \<^verbatim>\<open>hovering_handles\<close> exactly when it is a control point of a strip, its screen
  projection exists, and its distance to the pointer is at most the selection distance:
  the loop skips a point only when the distance is greater.
\<close>

theorem main_hovers_within_select_dist:
  "cbpt \<in> set (hovering_handles (snd (main env acts s))) \<longleftrightarrow>
     cbpt \<in> set (concat (map curve_list (strips s))) \<and>
     (case Point_to_Point2D env (xyz s cbpt) of
        None \<Rightarrow> False
      | Some v \<Rightarrow> vec_length env (vec_sub env (mouse acts) v) \<le> select_dist env)"
  by (auto simp: hovering_handles_main in_reach_def)

text \<open>
  C7, as stated, fails.  After detection on faces 0 to 3, control point 0 projects to
  (5, 5); with the pointer at (5, 10) its distance is the selection distance 5, and
  \<^verbatim>\<open>main\<close> puts it in \<^verbatim>\<open>hovering_handles\<close>.
\<close>

theorem handle_at_select_dist_is_hovered:
  "Point_to_Point2D block_env (xyz block_state 0) = Some (5, 5) \<and>
   vec_length block_env (vec_sub block_env (mouse (pointer (5, 10) [] [])) (5, 5))
     = select_dist block_env \<and>
   0 \<in> set (hovering_handles (snd (main block_env (pointer (5, 10) [] []) block_state)))"
  by (simp add: drag_simps block_xyz block_strips)

subsection \<open>Properties of the move handle state\<close>












text \<open>
  C6 does not hold of the code: \<^verbatim>\<open>modal_handle\<close> calls \<^verbatim>\<open>update\<close> on the strips of
  \<^verbatim>\<open>hovering_strips\<close>, not on those of \<^verbatim>\<open>mod_strips\<close>.  In the second drag on the
  grid, \<^verbatim>\<open>movehandle_enter\<close> puts strip B in \<^verbatim>\<open>mod_strips\<close> and captures its edges,
  because B's outer point 4 is in the edit set and its inner handle 5 is pulled in; the
  modal step moves handle 5; \<^verbatim>\<open>update\<close> is called on strip A and not on strip B.
\<close>

theorem pulled_strip_is_not_updated:
  "main block_env (pointer (25, 5) [''action''] []) first_drag_state = (Some ''move handle'', hover2_state) \<and>
   movehandle_canenter hover2_state \<and>
   Strip [0, 3] (4, 5, 6, 7) \<in> set (mod_strips enter2_state) \<and>
   Strip [0, 3] (4, 5, 6, 7) \<notin> set (hovering_strips enter2_state) \<and>
   CaptureEdges (Strip [0, 3] (4, 5, 6, 7)) \<in> set (trace enter2_state) \<and>
   (\<exists>s'. modal_handle block_env (pointer (26, 5) [] []) enter2_state = Inr (None, s') \<and>
         xyz enter2_state 5 = (5, 25 / 3, 0) \<and> xyz s' 5 = (6, 25 / 3, 0) \<and>
         Update (Strip [0, 1, 2] (0, 1, 2, 3)) \<in> set (trace s') \<and>
         Update (Strip [0, 3] (4, 5, 6, 7)) \<notin> set (trace s'))"
proof -
  obtain s' where step: "modal_handle block_env (pointer (26, 5) [] []) enter2_state = Inr (None, s')"
    and moved: "xyz s' 5 = (6, 25 / 3, 0)"
    and tr: "trace s' = trace enter2_state @
               [Raycast (26, 5), Update (Strip [0, 1, 2] (0, 1, 2, 3)), StripViz]"
    using moved2_state_eval by blast
  have "Update (Strip [0, 1, 2] (0, 1, 2, 3)) \<in> set (trace s')"
    and "Update (Strip [0, 3] (4, 5, 6, 7)) \<notin> set (trace s')"
    by (simp_all add: tr enter2_state_eval)
  moreover have "movehandle_canenter hover2_state"
    by (simp add: movehandle_canenter_def hover2_state_eval [THEN conjunct2])
  moreover have "xyz enter2_state 5 = (5, 25 / 3, 0)"
    by (simp add: enter2_state_eval first_drag_xyz)
  ultimately show ?thesis
    using step moved hover2_state_eval [THEN conjunct1]
    by (simp add: enter2_state_eval)
qed

end
